theory Spec2Isabelle
  imports Main "HOL-Library.Char_ord" "HOL-Library.List_Lexorder" "HOL-Library.Multiset"
begin

section \<open>Go strings and byte slices\<close>

text \<open>
  A Go \<open>string\<close> is an immutable sequence of bytes and a \<open>[]byte\<close> is a slice of bytes.
  Both are modelled as lists of \<^typ>\<open>char\<close>, the 8-bit character type, so that \<open>len\<close> is
  \<^const>\<open>length\<close> (a count of bytes) and the conversion \<open>string(b)\<close>, which copies the
  bytes of \<open>b\<close> unchanged, is the identity.
\<close>

type_synonym bytes = "char list"

text \<open>\<open>strings.HasPrefix(s, prefix)\<close>: \<open>len(s) >= len(prefix) && s[0:len(prefix)] == prefix\<close>.\<close>

definition HasPrefix :: "string \<Rightarrow> string \<Rightarrow> bool" where
  "HasPrefix s pre = (length pre \<le> length s \<and> take (length pre) s = pre)"

text \<open>
  \<open>strings.Index(s, substr)\<close>: the index of the first instance of \<open>substr\<close> in \<open>s\<close>, or
  \<open>-1\<close> when there is none; \<open>strings.Contains(s, substr)\<close> is \<open>Index(s, substr) >= 0\<close>.
\<close>

fun Index :: "string \<Rightarrow> string \<Rightarrow> int" where
  "Index [] substr = (if substr = [] then 0 else - 1)"
| "Index (c # cs) substr =
     (if HasPrefix (c # cs) substr then 0
      else (let i = Index cs substr in if i < 0 then - 1 else i + 1))"

definition Contains :: "string \<Rightarrow> string \<Rightarrow> bool" where
  "Contains s substr = (0 \<le> Index s substr)"

section \<open>The content classifier\<close>

text \<open>
  \<^verbatim>\<open>
  func isPrintableTextContent(contentType string) bool {
      if strings.HasPrefix(contentType, "text/") ||
          strings.Contains(contentType, "json") ||
          strings.Contains(contentType, "xml") ||
          strings.Contains(contentType, "html") {
          return true
      }
      return false
  }
  \<close>
\<close>

definition isPrintableTextContent :: "string \<Rightarrow> bool" where
  "isPrintableTextContent contentType =
     (if HasPrefix contentType ''text/'' \<or>
         Contains contentType ''json'' \<or>
         Contains contentType ''xml'' \<or>
         Contains contentType ''html''
      then True
      else False)"

section \<open>Log calls\<close>

text \<open>
  The package \<open>log\<close> that the gateway imports (\<open>pkgx/log\<close>, not among the sources) has
  logging functions at package level, \<open>log.Infof\<close> and \<open>log.Errorf\<close>; they take a format
  and its operands and no logger. A call is recorded as it is made, with its format and
  operands, in a trace of the package-level calls, oldest first. An operand is a string, an
  integer, an error or the server (\<open>*echo.Echo\<close>).
\<close>

datatype error = Error string

datatype arg = AString string | AInt int | AError error | AEcho

datatype log_call = Infof string "arg list" | Errorf string "arg list"

type_synonym trace = "log_call list"

section \<open>The body-dump handler\<close>

text \<open>
  What the handler reads of its \<open>echo.Context\<close>: the request URL as text
  (\<open>c.Request().URL.String()\<close>) and the header of the response (\<open>c.Response().Header()\<close>),
  a map from a header name to its values.
\<close>

record echo_context =
  request_url :: string
  response_header :: "string \<rightharpoonup> string list"

text \<open>
  \<open>http.Header.Get\<close>: the first value of the key, or the empty string when the key has
  no value. The only key read is \<open>echo.HeaderContentType\<close>, already in canonical form.
\<close>

definition HeaderContentType :: string where
  "HeaderContentType = ''Content-Type''"

definition Header_Get :: "(string \<rightharpoonup> string list) \<Rightarrow> string \<Rightarrow> string" where
  "Header_Get h key = (case h key of None \<Rightarrow> [] | Some [] \<Rightarrow> [] | Some (v # _) \<Rightarrow> v)"

text \<open>The slice expression \<open>b[:n]\<close> panics when \<open>n\<close> is out of range.\<close>

datatype panic = SliceBoundsOutOfRange

definition slice_to :: "bytes \<Rightarrow> int \<Rightarrow> panic + bytes" where
  "slice_to b n =
     (if 0 \<le> n \<and> n \<le> int (length b) then Inr (take (nat n) b)
      else Inl SliceBoundsOutOfRange)"

definition preview_format :: string where
  "preview_format = ''%v, reqBody[%v]:{%v}, resBody[%v]:{%v}''"

definition placeholder_format :: string where
  "placeholder_format = ''%v, reqBody[%v]:{%v}, resBody[%v]:[Non-printable ContentType:%v]''"

text \<open>
  \<^verbatim>\<open>
  Handler: func(c echo.Context, reqBody []byte, resBody []byte) {
      lq := int(math.Min(float64(len(reqBody)), 2000))
      lp := int(math.Min(float64(len(resBody)), 2000))
      contentType := c.Response().Header().Get(echo.HeaderContentType)
      if isPrintableTextContent(contentType) || len(resBody) == 0 {
          log.Infof("%v, reqBody[%v]:{%v}, resBody[%v]:{%v}", c.Request().URL.String(),
              len(reqBody), string(reqBody[:lq]), len(resBody), string(resBody[:lp]))
      } else {
          log.Infof("%v, reqBody[%v]:{%v}, resBody[%v]:[Non-printable ContentType:%v]",
              c.Request().URL.String(), len(reqBody), string(reqBody[:lq]), len(resBody),
              contentType)
      }
  }
  \<close>
  The minimum is taken in \<open>float64\<close> and converted back. A length below \<open>2000\<close> is
  converted exactly, and a length of \<open>2000\<close> or more converts to a float that is at least
  \<open>2000\<close>, so the result is the minimum of the integers. The operands are evaluated from
  left to right, so a panic of the first slice expression comes before the second.
\<close>

definition Handler :: "echo_context \<Rightarrow> bytes \<Rightarrow> bytes \<Rightarrow> trace \<Rightarrow> panic + trace" where
  "Handler c reqBody resBody tr =
     (let lq = min (int (length reqBody)) 2000;
          lp = min (int (length resBody)) 2000;
          contentType = Header_Get (response_header c) HeaderContentType
      in if isPrintableTextContent contentType \<or> length resBody = 0
         then (case slice_to reqBody lq of
                 Inl p \<Rightarrow> Inl p
               | Inr q \<Rightarrow>
                   (case slice_to resBody lp of
                      Inl p \<Rightarrow> Inl p
                    | Inr r \<Rightarrow>
                        Inr (tr @ [Infof preview_format
                          [AString (request_url c), AInt (int (length reqBody)), AString q,
                           AInt (int (length resBody)), AString r]])))
         else (case slice_to reqBody lq of
                 Inl p \<Rightarrow> Inl p
               | Inr q \<Rightarrow>
                   Inr (tr @ [Infof placeholder_format
                     [AString (request_url c), AInt (int (length reqBody)), AString q,
                      AInt (int (length resBody)), AString contentType]])))"

section \<open>Loggers and the log configuration\<close>

text \<open>
  \<^verbatim>\<open>
  type LogConfig struct {
      Output  string
      Level   string
      Size    int
      BackNum int
      AgeDays int
  }
  \<close>
\<close>

record LogConfig =
  Output :: string
  Level :: string
  Size :: int
  BackNum :: int
  AgeDays :: int

datatype level =
  PanicLevel | FatalLevel | ErrorLevel | WarnLevel | InfoLevel | DebugLevel | TraceLevel

text \<open>
  The rotating writer \<open>lumberjackx.Logger\<close>, with the fields of the struct literal in
  \<open>initAccessLog\<close>. A \<open>context.Context\<close> is an opaque value, here a number.
\<close>

record lumberjackx_Logger =
  Ctx :: nat
  Filename :: string
  MaxSize :: int
  MaxBackups :: int
  MaxAge :: int
  Compress :: bool
  LocalTime :: bool

datatype writer = Stdout | Stderr | Rotating lumberjackx_Logger | OtherWriter nat

datatype formatter = TextFormatter (QuoteEmptyFields: bool) | OtherFormatter nat

text \<open>
  A \<open>*logrus.Logger\<close> is a pointer. Loggers live in a store, so that the standard logger
  of the package and the logger of a gateway are told apart by their addresses; of a logger
  the store keeps the three fields that the gateway sets. Beside the store, the world holds
  the function \<open>viperx.GetString(key, default)\<close> of the settings, whose package is not among
  the sources.
\<close>

record logger =
  Out :: writer
  Formatter :: formatter
  Lvl :: level

datatype logger_ref = StandardLogger | LoggerAt nat

record world =
  loggers :: "logger_ref \<Rightarrow> logger"
  viperx_GetString :: "string \<Rightarrow> string \<Rightarrow> string"

definition SetOutput :: "logger_ref \<Rightarrow> writer \<Rightarrow> world \<Rightarrow> world" where
  "SetOutput r out w = w\<lparr>loggers := (loggers w)(r := (loggers w r)\<lparr>Out := out\<rparr>)\<rparr>"

definition SetLevel :: "logger_ref \<Rightarrow> level \<Rightarrow> world \<Rightarrow> world" where
  "SetLevel r l w = w\<lparr>loggers := (loggers w)(r := (loggers w r)\<lparr>Lvl := l\<rparr>)\<rparr>"

definition SetFormatter :: "logger_ref \<Rightarrow> formatter \<Rightarrow> world \<Rightarrow> world" where
  "SetFormatter r f w = w\<lparr>loggers := (loggers w)(r := (loggers w r)\<lparr>Formatter := f\<rparr>)\<rparr>"

section \<open>The echo server as the gateway uses it\<close>

record Route =
  Method :: string
  Path :: string

record CORSConfig =
  AllowOrigins :: "string list"
  ExposeHeaders :: "string list"
  AllowMethods :: "string list"
  AllowHeaders :: "string list"
  AllowCredentials :: bool

datatype middleware =
  BodyDump "echo_context \<Rightarrow> bytes \<Rightarrow> bytes \<Rightarrow> trace \<Rightarrow> panic + trace"
| LoggerMiddleware string writer
| CORS CORSConfig

record echo =
  Routes :: "Route list"
  middlewares :: "middleware list"

definition echo_New :: echo where
  "echo_New = \<lparr>Routes = [], middlewares = []\<rparr>"

definition Use :: "echo \<Rightarrow> middleware \<Rightarrow> echo" where
  "Use e m = e\<lparr>middlewares := middlewares e @ [m]\<rparr>"

text \<open>
  \<^verbatim>\<open>
  type ApiGateway struct {
      Echo   *echo.Echo
      Logger *logrus.Logger
  }
  \<close>
  A nil \<open>Logger\<close> is \<open>None\<close>.
\<close>

record ApiGateway =
  Echo :: echo
  Logger :: "logger_ref option"

section \<open>Configuration\<close>

definition access_format :: string where
  "access_format = ''${time_rfc3339} ${status} ${method} ${latency_human} ${host} ${remote_ip} ${bytes_in} ${bytes_out} ${uri} ${id} ${error}'' @ [CHR 0x0A]"

text \<open>
  \<open>configEcho\<close> installs three middlewares, in this order: the body dump with the
  handler above, the access logger, whose output is the writer that the standard logger
  has at this moment (\<open>log.StandardLogger().Out\<close>), and the CORS policy.
\<close>

definition configEcho :: "echo \<Rightarrow> world \<Rightarrow> echo" where
  "configEcho e w =
     (let format = access_format;
          e1 = Use e (BodyDump Handler);
          e2 = Use e1 (LoggerMiddleware (viperx_GetString w ''sys.accessFormat'' format)
                         (Out (loggers w StandardLogger)));
          e3 = Use e2 (CORS \<lparr>AllowOrigins = [''*''], ExposeHeaders = [''*''],
                         AllowMethods = [''*''], AllowHeaders = [''*''],
                         AllowCredentials = True\<rparr>)
      in e3)"

text \<open>
  \<^verbatim>\<open>
  func (agw *ApiGateway) initAccessLog(ctx context.Context, lc LogConfig) error {
      if agw.Logger == nil {
          agw.Logger = log.New()
      }
      level, err := logrus.ParseLevel(lc.Level)
      if err != nil {
          return err
      }
      switch lc.Output {
      case "stdout":
          agw.Logger.SetOutput(os.Stdout)
      case "stderr":
          agw.Logger.SetOutput(os.Stderr)
      case "":
          agw.Logger.SetOutput(os.Stdout)
      default:
          agw.Logger.SetOutput(&lumberjackx.Logger{
              Ctx: ctx, Filename: lc.Output, MaxSize: lc.Size, MaxBackups: lc.BackNum,
              MaxAge: lc.AgeDays, Compress: true, LocalTime: true,
          })
      }
      agw.Logger.SetLevel(level)
      agw.Logger.SetFormatter(&log.TextFormatter{QuoteEmptyFields: true})
      return nil
  }
  \<close>
  Two functions of other packages are parameters of the model: \<open>log_New\<close>, which returns
  the address of a logger and the store after the call, and \<open>ParseLevel\<close>, which returns
  a level or an error. The result is the error (if any), the gateway and the store.
\<close>

definition initAccessLog ::
  "(world \<Rightarrow> logger_ref \<times> world) \<Rightarrow> (string \<Rightarrow> error + level) \<Rightarrow>
   ApiGateway \<Rightarrow> nat \<Rightarrow> LogConfig \<Rightarrow> world \<Rightarrow> error option \<times> ApiGateway \<times> world" where
  "initAccessLog log_New ParseLevel agw ctx lc w =
     (let (r, w1) = (case Logger agw of None \<Rightarrow> log_New w | Some r \<Rightarrow> (r, w));
          agw1 = agw\<lparr>Logger := Some r\<rparr>
      in case ParseLevel (Level lc) of
           Inl err \<Rightarrow> (Some err, agw1, w1)
         | Inr level \<Rightarrow>
             (let w2 =
                (if Output lc = ''stdout'' then SetOutput r Stdout w1
                 else if Output lc = ''stderr'' then SetOutput r Stderr w1
                 else if Output lc = [] then SetOutput r Stdout w1
                 else SetOutput r (Rotating
                   \<lparr>Ctx = ctx, Filename = Output lc, MaxSize = Size lc,
                    MaxBackups = BackNum lc, MaxAge = AgeDays lc,
                    Compress = True, LocalTime = True\<rparr>) w1);
                  w3 = SetLevel r level w2;
                  w4 = SetFormatter r (TextFormatter True) w3
              in (None, agw1, w4)))"

text \<open>
  \<^verbatim>\<open>
  func New(ctx context.Context, logConfig LogConfig) (*ApiGateway, error) {
      agw := &ApiGateway{
          Echo: echo.New(),
      }
      if err := agw.initAccessLog(ctx, logConfig); err != nil {
          return nil, err
      }
      configEcho(agw.Echo)
      return agw, nil
  }
  \<close>
  The result is the pair that the Go function returns, and the store.
\<close>

definition New ::
  "(world \<Rightarrow> logger_ref \<times> world) \<Rightarrow> (string \<Rightarrow> error + level) \<Rightarrow>
   nat \<Rightarrow> LogConfig \<Rightarrow> world \<Rightarrow> (ApiGateway option \<times> error option) \<times> world" where
  "New log_New ParseLevel ctx logConfig w =
     (let agw = \<lparr>Echo = echo_New, Logger = None\<rparr>
      in case initAccessLog log_New ParseLevel agw ctx logConfig w of
           (Some err, agw1, w1) \<Rightarrow> ((None, Some err), w1)
         | (None, agw1, w1) \<Rightarrow>
             ((Some (agw1\<lparr>Echo := configEcho (Echo agw1) w1\<rparr>), None), w1))"

text \<open>
  For concrete runs: a constructor that puts a logger with the defaults of logrus at
  address 1, and a parser that stands for \<open>logrus.ParseLevel\<close> on level strings of
  letters: it compares the string in lower case with the seven level names, and its error
  quotes the string as it was given.
\<close>

definition new_at_1 :: "world \<Rightarrow> logger_ref \<times> world" where
  "new_at_1 w =
     (LoggerAt 1,
      w\<lparr>loggers := (loggers w)(LoggerAt 1 :=
           \<lparr>Out = Stderr, Formatter = OtherFormatter 0, Lvl = InfoLevel\<rparr>)\<rparr>)"

definition ToLower :: "string \<Rightarrow> string" where
  "ToLower s =
     map (\<lambda>c. if CHR ''A'' \<le> c \<and> c \<le> CHR ''Z'' then char_of (of_char c + (32::nat)) else c) s"

definition parse_lower :: "string \<Rightarrow> error + level" where
  "parse_lower lvl =
     (let l = ToLower lvl
      in if l = ''panic'' then Inr PanicLevel
         else if l = ''fatal'' then Inr FatalLevel
         else if l = ''error'' then Inr ErrorLevel
         else if l = ''warn'' \<or> l = ''warning'' then Inr WarnLevel
         else if l = ''info'' then Inr InfoLevel
         else if l = ''debug'' then Inr DebugLevel
         else if l = ''trace'' then Inr TraceLevel
         else Inl (Error (''not a valid logrus Level: '' @ [CHR 0x22] @ lvl @ [CHR 0x22])))"

definition world0 :: world where
  "world0 =
     \<lparr>loggers = (\<lambda>_. \<lparr>Out = Stderr, Formatter = OtherFormatter 0, Lvl = InfoLevel\<rparr>),
      viperx_GetString = (\<lambda>key dflt. dflt)\<rparr>"

section \<open>Listing the routes, starting and stopping\<close>

text \<open>
  \<open>sort.Slice(x, less)\<close> sorts the slice \<open>x\<close> in place by \<open>less\<close>. Its documentation
  promises a sorted rearrangement and excludes stability: "The sort is not guaranteed to be
  stable: equal elements may be reversed from their original order." The call is therefore
  a parameter of the model, a function from the slice before to the slice after, and
  \<open>sort_Slice_post\<close> is what the documentation promises of it.
\<close>

definition sort_Slice_post :: "('a \<Rightarrow> 'a \<Rightarrow> bool) \<Rightarrow> 'a list \<Rightarrow> 'a list \<Rightarrow> bool" where
  "sort_Slice_post lt xs ys \<longleftrightarrow> mset ys = mset xs \<and> sorted_wrt (\<lambda>a b. \<not> lt b a) ys"

definition meets_sort_Slice ::
  "(('a \<Rightarrow> 'a \<Rightarrow> bool) \<Rightarrow> 'a list \<Rightarrow> 'a list) \<Rightarrow> ('a \<Rightarrow> 'a \<Rightarrow> bool) \<Rightarrow> bool" where
  "meets_sort_Slice srt lt \<longleftrightarrow> (\<forall>xs. sort_Slice_post lt xs (srt lt xs))"

text \<open>
  An insertion sort driven by \<open>lt\<close>, for concrete runs. An element passes another one only
  when \<open>lt\<close> holds between them, so equal elements keep their order; this is the sort that
  \<open>sort.Slice\<close> runs on a slice of a few elements.
\<close>

fun insert_by :: "('a \<Rightarrow> 'a \<Rightarrow> bool) \<Rightarrow> 'a \<Rightarrow> 'a list \<Rightarrow> 'a list" where
  "insert_by lt x [] = [x]"
| "insert_by lt x (y # ys) =
     (if lt y x then y # insert_by lt x ys else x # y # ys)"

definition stable_sort_by :: "('a \<Rightarrow> 'a \<Rightarrow> bool) \<Rightarrow> 'a list \<Rightarrow> 'a list" where
  "stable_sort_by lt xs = foldr (insert_by lt) xs []"

text \<open>
  The routes are registered with the server one after the other. The server keeps them in
  a Go map under the method and the path, and \<open>e.Routes()\<close> ranges over that map: it
  returns every registered route once, in an order that Go leaves open and that changes
  from run to run. \<open>Routes_returns\<close> relates the routes in the order of their registration
  to a slice that \<open>e.Routes()\<close> may return.
\<close>

definition Routes_returns :: "Route list \<Rightarrow> Route list \<Rightarrow> bool" where
  "Routes_returns registered rs \<longleftrightarrow> distinct rs \<and> set rs = set registered"

text \<open>
  The listing in the words of the specification: the routes in the order of their
  registration, sorted by path, routes with the same path in the order of their
  registration.
\<close>

definition spec_ListRoutes :: "Route list \<Rightarrow> (string \<times> string) list" where
  "spec_ListRoutes registered = sort_key snd (map (\<lambda>r. (Method r, Path r)) registered)"

text \<open>
  \<^verbatim>\<open>
  func showEcho(e *echo.Echo) {
      routes := make([]struct {
          m string
          p string
      }, len(e.Routes()))
      for i, r := range e.Routes() {
          routes[i].m = r.Method
          routes[i].p = r.Path
      }
      sort.Slice(routes, func(i, j int) bool { return routes[i].p < routes[j].p })
      for _, r := range routes {
          log.Infof("%s %s", r.m, r.p)
      }
  }
  \<close>
  The local struct is a pair \<open>(m, p)\<close>; \<open>Routes e\<close> is the slice that \<open>e.Routes()\<close> returns,
  in the order in which it returns it. Go compares strings byte by byte, which is the
  lexicographic order of \<^typ>\<open>string\<close> here.
\<close>

definition showEcho ::
  "(((string \<times> string) \<Rightarrow> (string \<times> string) \<Rightarrow> bool) \<Rightarrow>
      (string \<times> string) list \<Rightarrow> (string \<times> string) list) \<Rightarrow> echo \<Rightarrow> trace \<Rightarrow> trace" where
  "showEcho sort_Slice e tr =
     (let routes = map (\<lambda>r. (Method r, Path r)) (Routes e);
          routes' = sort_Slice (\<lambda>a b. snd a < snd b) routes
      in tr @ map (\<lambda>(m, p). Infof ''%s %s'' [AString m, AString p]) routes')"

text \<open>
  \<^verbatim>\<open>
  func startEcho(e *echo.Echo, addr string) error {
      err := e.Start(addr)
      if err != nil {
          log.Errorf("Failed to bind address: %s, err[%v]", addr, err)
          return err
      }
      log.Infof("Start service listen on: %s", addr)
      return nil
  }
  \<close>
  What \<open>e.Start(addr)\<close> returns is a parameter of the model.
\<close>

text \<open>
  The \<open>Start\<close> of echo binds a listener on the address and then serves on it until the
  server is stopped. It returns the error of the bind when the bind fails; otherwise it
  returns, once the server has stopped, the error with which serving ended, and
  \<open>http.Server.Serve\<close> always ends with an error (\<open>http.ErrServerClosed\<close> after a
  shutdown). So there are two outcomes, and either gives \<open>startEcho\<close> an error.
\<close>

datatype start_outcome = BindFailed error | Served error

definition ErrServerClosed :: error where
  "ErrServerClosed = Error ''http: Server closed''"

definition echo_Start :: "start_outcome \<Rightarrow> error option" where
  "echo_Start outcome =
     (case outcome of BindFailed err \<Rightarrow> Some err | Served err \<Rightarrow> Some err)"

definition outcome_error :: "start_outcome \<Rightarrow> error" where
  "outcome_error outcome = (case outcome of BindFailed err \<Rightarrow> err | Served err \<Rightarrow> err)"

definition startEcho ::
  "(echo \<Rightarrow> string \<Rightarrow> error option) \<Rightarrow> echo \<Rightarrow> string \<Rightarrow> trace \<Rightarrow> error option \<times> trace" where
  "startEcho Start e addr tr =
     (case Start e addr of
        Some err \<Rightarrow>
          (Some err,
           tr @ [Errorf ''Failed to bind address: %s, err[%v]'' [AString addr, AError err]])
      | None \<Rightarrow> (None, tr @ [Infof ''Start service listen on: %s'' [AString addr]]))"

text \<open>
  \<^verbatim>\<open>
  func (agw *ApiGateway) Run(ip, port string) error {
      showEcho(agw.Echo)
      return startEcho(agw.Echo, fmt.Sprintf("%s:%s", ip, port))
  }
  \<close>
  With two string operands, \<open>fmt.Sprintf("%s:%s", ip, port)\<close> is \<open>ip\<close>, a colon and
  \<open>port\<close>.
\<close>

definition Run ::
  "(((string \<times> string) \<Rightarrow> (string \<times> string) \<Rightarrow> bool) \<Rightarrow>
      (string \<times> string) list \<Rightarrow> (string \<times> string) list) \<Rightarrow>
   (echo \<Rightarrow> string \<Rightarrow> error option) \<Rightarrow> ApiGateway \<Rightarrow> string \<Rightarrow> string \<Rightarrow> trace \<Rightarrow>
   error option \<times> trace" where
  "Run sort_Slice Start agw ip port tr =
     (let tr1 = showEcho sort_Slice (Echo agw) tr
      in startEcho Start (Echo agw) (ip @ '':'' @ port) tr1)"

text \<open>
  \<^verbatim>\<open>
  func shutdownEcho(e *echo.Echo) {
      ctx, cancel := context.WithTimeout(context.Background(), 5*time.Second)
      defer cancel()
      err := e.Shutdown(ctx)
      if err != nil {
          log.Errorf("Failed to close Echo: %v", e)
      }
      log.Infof("Close service: %v", e)
  }

  func (agw *ApiGateway) Stop() {
      shutdownEcho(agw.Echo)
  }
  \<close>
  What \<open>e.Shutdown(ctx)\<close> returns is a parameter of the model; it is given the timeout of
  the context, a \<open>time.Duration\<close> in nanoseconds. How long the call takes is outside the
  model.
\<close>

definition Second :: int where
  "Second = 1000000000"

definition shutdownEcho :: "(echo \<Rightarrow> int \<Rightarrow> error option) \<Rightarrow> echo \<Rightarrow> trace \<Rightarrow> trace" where
  "shutdownEcho Shutdown e tr =
     (let timeout = 5 * Second;
          err = Shutdown e timeout;
          tr1 = (case err of
                   Some _ \<Rightarrow> tr @ [Errorf ''Failed to close Echo: %v'' [AEcho]]
                 | None \<Rightarrow> tr)
      in tr1 @ [Infof ''Close service: %v'' [AEcho]])"

definition Stop :: "(echo \<Rightarrow> int \<Rightarrow> error option) \<Rightarrow> ApiGateway \<Rightarrow> trace \<Rightarrow> trace" where
  "Stop Shutdown agw tr = shutdownEcho Shutdown (Echo agw) tr"

section \<open>Facts about the string functions\<close>

lemma HasPrefix_iff: "HasPrefix s pre \<longleftrightarrow> (\<exists>t. s = pre @ t)"
proof
  assume "HasPrefix s pre"
  then have "s = pre @ drop (length pre) s"
    by (metis HasPrefix_def append_take_drop_id)
  then show "\<exists>t. s = pre @ t" ..
next
  assume "\<exists>t. s = pre @ t"
  then show "HasPrefix s pre"
    by (auto simp: HasPrefix_def)
qed

lemma Index_lower: "- 1 \<le> Index s substr"
  by (induction s) (auto simp: Let_def)

lemma Contains_Nil: "Contains [] substr \<longleftrightarrow> substr = []"
  by (simp add: Contains_def)

lemma Contains_Cons:
  "Contains (c # cs) substr \<longleftrightarrow> HasPrefix (c # cs) substr \<or> Contains cs substr"
  using Index_lower [of cs substr] by (auto simp: Contains_def Let_def)

lemma Contains_iff: "Contains s substr \<longleftrightarrow> (\<exists>p q. s = p @ substr @ q)"
proof (induction s)
  case Nil
  show ?case by (simp add: Contains_Nil)
next
  case (Cons c cs)
  show ?case
  proof
    assume "Contains (c # cs) substr"
    then consider "HasPrefix (c # cs) substr" | "Contains cs substr"
      by (auto simp: Contains_Cons)
    then show "\<exists>p q. c # cs = p @ substr @ q"
    proof cases
      case 1
      then obtain t where "c # cs = substr @ t"
        by (auto simp: HasPrefix_iff)
      then have "c # cs = [] @ substr @ t" by simp
      then show ?thesis by blast
    next
      case 2
      then obtain p q where "cs = p @ substr @ q"
        using Cons.IH by blast
      then have "c # cs = (c # p) @ substr @ q" by simp
      then show ?thesis by blast
    qed
  next
    assume "\<exists>p q. c # cs = p @ substr @ q"
    then obtain p q where pq: "c # cs = p @ substr @ q" by blast
    show "Contains (c # cs) substr"
    proof (cases p)
      case Nil
      with pq have "HasPrefix (c # cs) substr"
        by (auto simp: HasPrefix_iff)
      then show ?thesis by (simp add: Contains_Cons)
    next
      case (Cons a p')
      with pq have "cs = p' @ substr @ q" by simp
      then have "Contains cs substr"
        using Cons.IH by blast
      then show ?thesis by (simp add: Contains_Cons)
    qed
  qed
qed

section \<open>Facts about the body-dump handler\<close>

lemma slice_to_min: "slice_to b (min (int (length b)) 2000) = Inr (take (min (length b) 2000) b)"
proof -
  have "nat (min (int (length b)) 2000) = min (length b) 2000"
    by (simp add: min_def)
  then show ?thesis
    by (simp add: slice_to_def)
qed

lemma Handler_printable:
  assumes "isPrintableTextContent (Header_Get (response_header c) HeaderContentType) \<or> resBody = []"
  shows "Handler c reqBody resBody tr =
    Inr (tr @ [Infof preview_format
      [AString (request_url c), AInt (int (length reqBody)),
       AString (take (min (length reqBody) 2000) reqBody),
       AInt (int (length resBody)),
       AString (take (min (length resBody) 2000) resBody)]])"
proof -
  have "isPrintableTextContent (Header_Get (response_header c) HeaderContentType) \<or>
      length resBody = 0"
    using assms by simp
  then show ?thesis
    unfolding Handler_def Let_def slice_to_min by simp
qed

lemma Handler_opaque:
  assumes "\<not> isPrintableTextContent (Header_Get (response_header c) HeaderContentType)"
    and "resBody \<noteq> []"
  shows "Handler c reqBody resBody tr =
    Inr (tr @ [Infof placeholder_format
      [AString (request_url c), AInt (int (length reqBody)),
       AString (take (min (length reqBody) 2000) reqBody),
       AInt (int (length resBody)),
       AString (Header_Get (response_header c) HeaderContentType)]])"
proof -
  have "\<not> (isPrintableTextContent (Header_Get (response_header c) HeaderContentType) \<or>
      length resBody = 0)"
    using assms by simp
  then show ?thesis
    unfolding Handler_def Let_def slice_to_min by simp
qed

lemma formats_differ: "preview_format \<noteq> placeholder_format"
  by (simp add: preview_format_def placeholder_format_def)

section \<open>Facts about configuration\<close>

lemma logger_all_set:
  "(l::logger)\<lparr>Out := a, Lvl := b, Formatter := c\<rparr> = \<lparr>Out = a, Formatter = c, Lvl = b\<rparr>"
  by (cases l) simp

lemma initAccessLog_error:
  assumes "ParseLevel (Level lc) = Inl err"
  shows "fst (initAccessLog log_New ParseLevel agw ctx lc w) = Some err"
  using assms by (simp add: initAccessLog_def Let_def split: prod.splits option.splits)

lemma initAccessLog_error_world:
  assumes "ParseLevel (Level lc) = Inl err"
  shows "snd (snd (initAccessLog log_New ParseLevel agw ctx lc w)) =
    snd (case Logger agw of None \<Rightarrow> log_New w | Some r \<Rightarrow> (r, w))"
  using assms by (simp add: initAccessLog_def Let_def split: prod.splits option.splits)

lemma initAccessLog_ok:
  assumes "(case Logger agw of None \<Rightarrow> log_New w | Some r \<Rightarrow> (r, w)) = (r, w1)"
    and "ParseLevel (Level lc) = Inr lvl"
  shows "initAccessLog log_New ParseLevel agw ctx lc w =
    (None, agw\<lparr>Logger := Some r\<rparr>,
     w1\<lparr>loggers := (loggers w1)(r :=
        \<lparr>Out = (if Output lc = ''stdout'' then Stdout
                else if Output lc = ''stderr'' then Stderr
                else if Output lc = [] then Stdout
                else Rotating \<lparr>Ctx = ctx, Filename = Output lc, MaxSize = Size lc,
                    MaxBackups = BackNum lc, MaxAge = AgeDays lc,
                    Compress = True, LocalTime = True\<rparr>),
         Formatter = TextFormatter True, Lvl = lvl\<rparr>)\<rparr>)"
  using assms
  by (simp add: initAccessLog_def Let_def SetOutput_def SetLevel_def SetFormatter_def
      logger_all_set)

lemma New_error:
  assumes "ParseLevel (Level lc) = Inl err"
  shows "New log_New ParseLevel ctx lc w = ((None, Some err), snd (log_New w))"
proof -
  let ?agw = "\<lparr>Echo = echo_New, Logger = None\<rparr>"
  obtain e a w' where r: "initAccessLog log_New ParseLevel ?agw ctx lc w = (e, a, w')"
    by (metis prod_cases3)
  have "fst (initAccessLog log_New ParseLevel ?agw ctx lc w) = Some err"
    using assms by (rule initAccessLog_error)
  with r have e: "e = Some err" by simp
  have "snd (snd (initAccessLog log_New ParseLevel ?agw ctx lc w)) =
      snd (case Logger ?agw of None \<Rightarrow> log_New w | Some r \<Rightarrow> (r, w))"
    using assms by (rule initAccessLog_error_world)
  with r have "w' = snd (log_New w)" by simp
  with r e show ?thesis by (simp add: New_def)
qed

lemma New_ok:
  assumes "log_New w = (r, w1)" and "ParseLevel (Level lc) = Inr lvl"
  shows "New log_New ParseLevel ctx lc w =
    ((Some \<lparr>Echo = configEcho echo_New
              (w1\<lparr>loggers := (loggers w1)(r :=
        \<lparr>Out = (if Output lc = ''stdout'' then Stdout
                else if Output lc = ''stderr'' then Stderr
                else if Output lc = [] then Stdout
                else Rotating \<lparr>Ctx = ctx, Filename = Output lc, MaxSize = Size lc,
                    MaxBackups = BackNum lc, MaxAge = AgeDays lc,
                    Compress = True, LocalTime = True\<rparr>),
         Formatter = TextFormatter True, Lvl = lvl\<rparr>)\<rparr>), Logger = Some r\<rparr>, None),
     w1\<lparr>loggers := (loggers w1)(r :=
        \<lparr>Out = (if Output lc = ''stdout'' then Stdout
                else if Output lc = ''stderr'' then Stderr
                else if Output lc = [] then Stdout
                else Rotating \<lparr>Ctx = ctx, Filename = Output lc, MaxSize = Size lc,
                    MaxBackups = BackNum lc, MaxAge = AgeDays lc,
                    Compress = True, LocalTime = True\<rparr>),
         Formatter = TextFormatter True, Lvl = lvl\<rparr>)\<rparr>)"
proof -
  let ?agw = "\<lparr>Echo = echo_New, Logger = None\<rparr>"
  have "(case Logger ?agw of None \<Rightarrow> log_New w | Some r \<Rightarrow> (r, w)) = (r, w1)"
    using assms(1) by simp
  from initAccessLog_ok [where ParseLevel = ParseLevel and log_New = log_New, OF this assms(2), of ctx]
  show ?thesis
    by (simp add: New_def)
qed

lemma configEcho_middlewares:
  "middlewares (configEcho e w) = middlewares e @
     [BodyDump Handler,
      LoggerMiddleware (viperx_GetString w ''sys.accessFormat'' access_format)
        (Out (loggers w StandardLogger)),
      CORS \<lparr>AllowOrigins = [''*''], ExposeHeaders = [''*''],
            AllowMethods = [''*''], AllowHeaders = [''*''],
            AllowCredentials = True\<rparr>]"
  by (simp add: configEcho_def Use_def Let_def)

lemma configEcho_Routes: "Routes (configEcho e w) = Routes e"
  by (simp add: configEcho_def Use_def Let_def)

section \<open>Facts about sorting and listing\<close>

lemma mset_insert_by: "mset (insert_by lt x ys) = add_mset x (mset ys)"
  by (induction ys) simp_all

lemma set_insert_by: "set (insert_by lt x ys) = insert x (set ys)"
  by (induction ys) auto

lemma sorted_insert_by:
  fixes f :: "'a \<Rightarrow> 'b::linorder"
  assumes "sorted_wrt (\<lambda>a b. \<not> f b < f a) ys"
  shows "sorted_wrt (\<lambda>a b. \<not> f b < f a) (insert_by (\<lambda>a b. f a < f b) x ys)"
  using assms
proof (induction ys)
  case Nil
  show ?case by simp
next
  case (Cons y ys)
  show ?case
  proof (cases "f y < f x")
    case True
    with Cons show ?thesis
      by (auto simp: set_insert_by)
  next
    case False
    with Cons.prems show ?thesis
      by (auto simp: not_less intro: order_trans)
  qed
qed

lemma mset_stable_sort_by: "mset (stable_sort_by lt xs) = mset xs"
  by (induction xs) (simp_all add: stable_sort_by_def mset_insert_by)

lemma sorted_stable_sort_by:
  fixes f :: "'a \<Rightarrow> 'b::linorder"
  shows "sorted_wrt (\<lambda>a b. \<not> f b < f a) (stable_sort_by (\<lambda>a b. f a < f b) xs)"
proof (induction xs)
  case Nil
  show ?case by (simp add: stable_sort_by_def)
next
  case (Cons x xs)
  then show ?case
    using sorted_insert_by [of f "stable_sort_by (\<lambda>a b. f a < f b) xs" x]
    by (simp add: stable_sort_by_def)
qed

lemma stable_sort_by_meets:
  fixes f :: "'a \<Rightarrow> 'b::linorder"
  shows "meets_sort_Slice stable_sort_by (\<lambda>a b. f a < f b)"
  by (simp add: meets_sort_Slice_def sort_Slice_post_def mset_stable_sort_by
      sorted_stable_sort_by)

lemma sorted_wrt_not_less:
  fixes f :: "'a \<Rightarrow> 'b::linorder"
  shows "sorted_wrt (\<lambda>a b. \<not> f b < f a) ys \<longleftrightarrow> sorted (map f ys)"
  by (simp add: sorted_map not_less)

lemma sort_Slice_post_by_key:
  fixes f :: "'a \<Rightarrow> 'b::linorder"
  assumes "sort_Slice_post (\<lambda>a b. f a < f b) xs ys"
  shows "mset ys = mset xs" and "sorted (map f ys)"
    and "distinct (map f xs) \<Longrightarrow> ys = sort_key f xs"
proof -
  show m: "mset ys = mset xs"
    using assms by (simp add: sort_Slice_post_def)
  show s: "sorted (map f ys)"
    using assms by (simp add: sort_Slice_post_def sorted_wrt_not_less)
  assume "distinct (map f xs)"
  then have "inj_on f (set xs)"
    by (simp add: distinct_map)
  with m s show "ys = sort_key f xs"
    using sort_key_inj_key_eq [of xs ys f] by simp
qed

text \<open>
  \<open>Stop\<close> hands \<open>e.Shutdown\<close> a context that expires after five seconds, logs an error
  line when \<open>e.Shutdown\<close> returns an error, and logs the closing line in either case. It
  reads no state of the gateway beyond its server, so a second call does the same again.
\<close>

lemma Stop_trace:
  "Stop Shutdown agw tr =
     tr @ (case Shutdown (Echo agw) 5000000000 of
             Some err \<Rightarrow> [Errorf ''Failed to close Echo: %v'' [AEcho]]
           | None \<Rightarrow> []) @
       [Infof ''Close service: %v'' [AEcho]]"
  by (simp add: Stop_def shutdownEcho_def Second_def Let_def split: option.splits)

section \<open>Claims\<close>

text \<open>
  C1. For every request body and response body, the handler never panics and makes one
  log call. Its request preview is the first \<open>min (len reqBody) 2000\<close> bytes of the request
  body, unchanged. When the response content type is printable or the response body is
  empty, the call carries a response preview, and that preview is the first
  \<open>min (len resBody) 2000\<close> bytes of the response body, unchanged. Only when the content
  type is not printable and the response body is not empty does the call carry no response
  preview; the content type stands in its place.
\<close>

theorem Handler_preview_prefix:
  "\<exists>q. length q = min (length reqBody) 2000 \<and> q = take (length q) reqBody \<and>
     (isPrintableTextContent (Header_Get (response_header c) HeaderContentType) \<or>
        resBody = [] \<longrightarrow>
       (\<exists>x. Handler c reqBody resBody tr =
          Inr (tr @ [Infof preview_format
            [AString (request_url c), AInt (int (length reqBody)), AString q,
             AInt (int (length resBody)), AString x]]) \<and>
          length x = min (length resBody) 2000 \<and> x = take (length x) resBody)) \<and>
     (\<not> isPrintableTextContent (Header_Get (response_header c) HeaderContentType) \<and>
        resBody \<noteq> [] \<longrightarrow>
       Handler c reqBody resBody tr =
         Inr (tr @ [Infof placeholder_format
           [AString (request_url c), AInt (int (length reqBody)), AString q,
            AInt (int (length resBody)),
            AString (Header_Get (response_header c) HeaderContentType)]]))"
proof -
  let ?q = "take (min (length reqBody) 2000) reqBody"
  let ?x = "take (min (length resBody) 2000) resBody"
  let ?ct = "Header_Get (response_header c) HeaderContentType"
  have q: "length ?q = min (length reqBody) 2000" "?q = take (length ?q) reqBody"
    by simp_all
  have x: "length ?x = min (length resBody) 2000" "?x = take (length ?x) resBody"
    by simp_all
  have p: "isPrintableTextContent ?ct \<or> resBody = [] \<longrightarrow>
       (\<exists>x. Handler c reqBody resBody tr =
          Inr (tr @ [Infof preview_format
            [AString (request_url c), AInt (int (length reqBody)), AString ?q,
             AInt (int (length resBody)), AString x]]) \<and>
          length x = min (length resBody) 2000 \<and> x = take (length x) resBody)"
  proof
    assume "isPrintableTextContent ?ct \<or> resBody = []"
    then have "Handler c reqBody resBody tr =
          Inr (tr @ [Infof preview_format
            [AString (request_url c), AInt (int (length reqBody)), AString ?q,
             AInt (int (length resBody)), AString ?x]])"
      by (rule Handler_printable)
    with x show "\<exists>x. Handler c reqBody resBody tr =
          Inr (tr @ [Infof preview_format
            [AString (request_url c), AInt (int (length reqBody)), AString ?q,
             AInt (int (length resBody)), AString x]]) \<and>
          length x = min (length resBody) 2000 \<and> x = take (length x) resBody"
      by blast
  qed
  have o: "\<not> isPrintableTextContent ?ct \<and> resBody \<noteq> [] \<longrightarrow>
       Handler c reqBody resBody tr =
         Inr (tr @ [Infof placeholder_format
           [AString (request_url c), AInt (int (length reqBody)), AString ?q,
            AInt (int (length resBody)), AString ?ct]])"
    by (simp add: Handler_opaque)
  from q p o show ?thesis
    by blast
qed

text \<open>
  A response of 3000 bytes with the content type \<open>application/json\<close>, to a request of 3000
  bytes: the call has the preview format and carries the first 2000 bytes of each.
\<close>

theorem Handler_preview_prefix_witness:
  "Handler \<lparr>request_url = ''/v1/items'',
      response_header = [''Content-Type'' \<mapsto> [''application/json'']]\<rparr>
      (replicate 3000 (CHR ''a'')) (replicate 3000 (CHR ''b'')) [] =
     Inr [Infof preview_format
       [AString ''/v1/items'', AInt 3000, AString (replicate 2000 (CHR ''a'')), AInt 3000,
        AString (replicate 2000 (CHR ''b''))]]"
proof -
  let ?c = "\<lparr>request_url = ''/v1/items'',
      response_header = [''Content-Type'' \<mapsto> [''application/json'']]\<rparr>"
  let ?req = "replicate 3000 (CHR ''a'')"
  let ?res = "replicate 3000 (CHR ''b'')"
  have h: "Header_Get (response_header ?c) HeaderContentType = ''application/json''"
    by (simp add: Header_Get_def HeaderContentType_def)
  have p: "isPrintableTextContent (Header_Get (response_header ?c) HeaderContentType) \<or>
      ?res = []"
    unfolding h by (simp add: isPrintableTextContent_def HasPrefix_def Contains_def)
  from Handler_preview_prefix [of ?req ?c ?res "[]"] p
  obtain q x where q: "length q = min (length ?req) 2000" "q = take (length q) ?req"
    and e: "Handler ?c ?req ?res [] =
      Inr ([] @ [Infof preview_format
        [AString (request_url ?c), AInt (int (length ?req)), AString q,
         AInt (int (length ?res)), AString x]])"
    and x: "length x = min (length ?res) 2000" "x = take (length x) ?res"
    by blast
  from q have "q = replicate 2000 (CHR ''a'')"
    by simp
  moreover from x have "x = replicate 2000 (CHR ''b'')"
    by simp
  ultimately show ?thesis
    using e by simp
qed

text \<open>
  C2. For every content-type string \<open>s\<close>, \<open>isPrintableTextContent s\<close> is true if and only
  if \<open>s\<close> starts with \<open>text/\<close> or has \<open>json\<close>, \<open>xml\<close> or \<open>html\<close> as a contiguous,
  case-sensitive substring; on the empty string it is false. The model is a total function
  of its argument alone, as the source function is: it has no loop, reads no state and
  writes none.
\<close>

theorem isPrintableTextContent_iff:
  "(isPrintableTextContent s \<longleftrightarrow>
      (\<exists>t. s = ''text/'' @ t) \<or> (\<exists>p q. s = p @ ''json'' @ q) \<or>
      (\<exists>p q. s = p @ ''xml'' @ q) \<or> (\<exists>p q. s = p @ ''html'' @ q)) \<and>
   isPrintableTextContent '''' = False \<and>
   isPrintableTextContent ''application/JSON'' = False \<and>
   isPrintableTextContent ''application/json'' = True"
proof -
  have "isPrintableTextContent s \<longleftrightarrow>
      (\<exists>t. s = ''text/'' @ t) \<or> (\<exists>p q. s = p @ ''json'' @ q) \<or>
      (\<exists>p q. s = p @ ''xml'' @ q) \<or> (\<exists>p q. s = p @ ''html'' @ q)"
    unfolding isPrintableTextContent_def HasPrefix_iff Contains_iff by simp
  moreover have "isPrintableTextContent '''' = False"
    by (simp add: isPrintableTextContent_def HasPrefix_def Contains_def)
  moreover have "isPrintableTextContent ''application/JSON'' = False"
    by (simp add: isPrintableTextContent_def HasPrefix_def Contains_def)
  moreover have "isPrintableTextContent ''application/json'' = True"
    by (simp add: isPrintableTextContent_def HasPrefix_def Contains_def)
  ultimately show ?thesis by blast
qed

text \<open>
  C3. The choice between the two log calls depends on the response alone. When the
  response content type is printable or the response body is empty, the call has the
  preview format and both previews; otherwise it has the placeholder format, with the
  request preview and, in place of the response preview, the response content type. An
  empty response body gives the preview format whatever the content type.
\<close>

theorem Handler_decision:
  "(isPrintableTextContent (Header_Get (response_header c) HeaderContentType) \<or> resBody = [] \<longrightarrow>
     Handler c reqBody resBody tr =
       Inr (tr @ [Infof preview_format
         [AString (request_url c), AInt (int (length reqBody)),
          AString (take (min (length reqBody) 2000) reqBody),
          AInt (int (length resBody)),
          AString (take (min (length resBody) 2000) resBody)]])) \<and>
   (\<not> isPrintableTextContent (Header_Get (response_header c) HeaderContentType) \<and>
      resBody \<noteq> [] \<longrightarrow>
     Handler c reqBody resBody tr =
       Inr (tr @ [Infof placeholder_format
         [AString (request_url c), AInt (int (length reqBody)),
          AString (take (min (length reqBody) 2000) reqBody),
          AInt (int (length resBody)),
          AString (Header_Get (response_header c) HeaderContentType)]])) \<and>
   Handler c reqBody [] tr =
     Inr (tr @ [Infof preview_format
       [AString (request_url c), AInt (int (length reqBody)),
        AString (take (min (length reqBody) 2000) reqBody), AInt 0, AString []]])"
proof (intro conjI impI)
  assume "isPrintableTextContent (Header_Get (response_header c) HeaderContentType) \<or>
    resBody = []"
  then show "Handler c reqBody resBody tr =
       Inr (tr @ [Infof preview_format
         [AString (request_url c), AInt (int (length reqBody)),
          AString (take (min (length reqBody) 2000) reqBody),
          AInt (int (length resBody)),
          AString (take (min (length resBody) 2000) resBody)]])"
    by (rule Handler_printable)
next
  assume "\<not> isPrintableTextContent (Header_Get (response_header c) HeaderContentType) \<and>
    resBody \<noteq> []"
  then show "Handler c reqBody resBody tr =
       Inr (tr @ [Infof placeholder_format
         [AString (request_url c), AInt (int (length reqBody)),
          AString (take (min (length reqBody) 2000) reqBody),
          AInt (int (length resBody)),
          AString (Header_Get (response_header c) HeaderContentType)]])"
    by (simp add: Handler_opaque)
next
  show "Handler c reqBody [] tr =
     Inr (tr @ [Infof preview_format
       [AString (request_url c), AInt (int (length reqBody)),
        AString (take (min (length reqBody) 2000) reqBody), AInt 0, AString []]])"
    using Handler_printable [of c "[]" reqBody tr] by simp
qed

theorem Handler_decision_witness:
  "Handler \<lparr>request_url = ''/v1/items'',
      response_header = [''Content-Type'' \<mapsto> [''application/json'']]\<rparr> ''ping'' ''{}'' [] =
     Inr [Infof preview_format
       [AString ''/v1/items'', AInt 4, AString ''ping'', AInt 2, AString ''{}'']] \<and>
   Handler \<lparr>request_url = ''/v1/blob'',
      response_header = [''Content-Type'' \<mapsto> [''application/octet-stream'']]\<rparr>
      ''ping'' ''0123456789'' [] =
     Inr [Infof placeholder_format
       [AString ''/v1/blob'', AInt 4, AString ''ping'', AInt 10,
        AString ''application/octet-stream'']]"
proof -
  let ?cj = "\<lparr>request_url = ''/v1/items'',
      response_header = [''Content-Type'' \<mapsto> [''application/json'']]\<rparr>"
  let ?cb = "\<lparr>request_url = ''/v1/blob'',
      response_header = [''Content-Type'' \<mapsto> [''application/octet-stream'']]\<rparr>"
  have hj: "Header_Get (response_header ?cj) HeaderContentType = ''application/json''"
    by (simp add: Header_Get_def HeaderContentType_def)
  have hb: "Header_Get (response_header ?cb) HeaderContentType = ''application/octet-stream''"
    by (simp add: Header_Get_def HeaderContentType_def)
  have pj: "isPrintableTextContent (Header_Get (response_header ?cj) HeaderContentType) \<or>
      ''{}'' = []"
    unfolding hj by (simp add: isPrintableTextContent_def HasPrefix_def Contains_def)
  have pb: "\<not> isPrintableTextContent (Header_Get (response_header ?cb) HeaderContentType) \<and>
      ''0123456789'' \<noteq> []"
    unfolding hb by (simp add: isPrintableTextContent_def HasPrefix_def Contains_def)
  have "Handler ?cj ''ping'' ''{}'' [] =
     Inr [Infof preview_format
       [AString ''/v1/items'', AInt 4, AString ''ping'', AInt 2, AString ''{}'']]"
    using Handler_decision [of ?cj "''{}''" "''ping''" "[]"] pj by simp
  moreover have "Handler ?cb ''ping'' ''0123456789'' [] =
     Inr [Infof placeholder_format
       [AString ''/v1/blob'', AInt 4, AString ''ping'', AInt 10,
        AString ''application/octet-stream'']]"
    using Handler_decision [of ?cb "''0123456789''" "''ping''" "[]"] pb hb by simp
  ultimately show ?thesis by blast
qed

text \<open>
  C4, as the code has it. The handler is called with the two bodies whole, as byte slices
  of any length, and logs their true lengths; what is bounded by 2000 bytes in each
  direction is the preview it cuts from them. In the placeholder call the fifth operand is
  the content type, and no byte of the response body is logged.
\<close>

theorem Handler_preview_bounded:
  "\<exists>fmt q x.
     Handler c reqBody resBody tr =
       Inr (tr @ [Infof fmt
         [AString (request_url c), AInt (int (length reqBody)), AString q,
          AInt (int (length resBody)), AString x]]) \<and>
     length q \<le> 2000 \<and>
     (fmt = preview_format \<and> length x \<le> 2000
      \<or> fmt = placeholder_format \<and>
         x = Header_Get (response_header c) HeaderContentType)"
proof (cases "isPrintableTextContent (Header_Get (response_header c) HeaderContentType) \<or>
    resBody = []")
  case True
  have "length (take (min (length reqBody) 2000) reqBody) \<le> 2000"
    "length (take (min (length resBody) 2000) resBody) \<le> 2000"
    by simp_all
  with Handler_printable [OF True, of reqBody tr] show ?thesis
    by blast
next
  case False
  then have np: "\<not> isPrintableTextContent (Header_Get (response_header c) HeaderContentType)"
    and ne: "resBody \<noteq> []"
    by simp_all
  have "length (take (min (length reqBody) 2000) reqBody) \<le> 2000"
    by simp
  with Handler_opaque [OF np ne, of reqBody tr] show ?thesis
    by blast
qed

text \<open>
  A request body of 2001 bytes: the slice the handler holds has 2001 bytes, which is the
  length it logs, beside a preview of 2000.
\<close>

theorem Handler_holds_whole_body:
  "\<not> length (replicate 2001 (CHR ''a'')) \<le> 2000 \<and>
   Handler \<lparr>request_url = ''/upload'', response_header = Map.empty\<rparr>
      (replicate 2001 (CHR ''a'')) [] [] =
     Inr [Infof preview_format
       [AString ''/upload'', AInt 2001, AString (replicate 2000 (CHR ''a'')), AInt 0,
        AString []]]"
  by (simp add: Handler_printable)

text \<open>
  C5, as the code has it. Whatever sorted rearrangement \<open>sort.Slice\<close> produces, the listing
  logs one line per route of \<open>e.Routes()\<close>, in ascending order of the paths. When no two
  routes have the same path, the listing is the one sorted list there is: for \<open>GET /b\<close>
  before \<open>POST /a\<close> it is \<open>POST /a\<close>, then \<open>GET /b\<close>. For routes with the same path the
  code fixes no order.
\<close>

theorem showEcho_sorted:
  assumes "meets_sort_Slice srt (\<lambda>a b. snd a < snd b)"
  shows "(\<exists>ys. showEcho srt e tr =
        tr @ map (\<lambda>(m, p). Infof ''%s %s'' [AString m, AString p]) ys \<and>
      mset ys = mset (map (\<lambda>r. (Method r, Path r)) (Routes e)) \<and>
      sorted (map snd ys) \<and>
      (distinct (map Path (Routes e)) \<longrightarrow>
         ys = sort_key snd (map (\<lambda>r. (Method r, Path r)) (Routes e)))) \<and>
    showEcho srt
      \<lparr>Routes = [\<lparr>Method = ''GET'', Path = ''/b''\<rparr>, \<lparr>Method = ''POST'', Path = ''/a''\<rparr>],
       middlewares = ms\<rparr> tr =
      tr @ [Infof ''%s %s'' [AString ''POST'', AString ''/a''],
            Infof ''%s %s'' [AString ''GET'', AString ''/b'']]"
proof -
  have listing: "showEcho srt e' tr =
        tr @ map (\<lambda>(m, p). Infof ''%s %s'' [AString m, AString p])
          (srt (\<lambda>a b. snd a < snd b) (map (\<lambda>r. (Method r, Path r)) (Routes e')))" for e'
    by (simp add: showEcho_def Let_def)
  have post: "sort_Slice_post (\<lambda>a b. snd a < snd b) xs (srt (\<lambda>a b. snd a < snd b) xs)" for xs
    using assms by (simp add: meets_sort_Slice_def)
  let ?xs = "map (\<lambda>r. (Method r, Path r)) (Routes e)"
  let ?ys = "srt (\<lambda>a b. snd a < snd b) ?xs"
  have keys: "map snd ?xs = map Path (Routes e)"
    by (simp add: comp_def)
  have "mset ?ys = mset ?xs"
    using post by (rule sort_Slice_post_by_key(1))
  moreover have "sorted (map snd ?ys)"
    using post by (rule sort_Slice_post_by_key(2))
  moreover have "distinct (map Path (Routes e)) \<longrightarrow> ?ys = sort_key snd ?xs"
  proof
    assume "distinct (map Path (Routes e))"
    then have "distinct (map snd ?xs)"
      by (simp only: keys)
    with post show "?ys = sort_key snd ?xs"
      by (rule sort_Slice_post_by_key(3))
  qed
  ultimately have general: "\<exists>ys. showEcho srt e tr =
        tr @ map (\<lambda>(m, p). Infof ''%s %s'' [AString m, AString p]) ys \<and>
      mset ys = mset ?xs \<and> sorted (map snd ys) \<and>
      (distinct (map Path (Routes e)) \<longrightarrow> ys = sort_key snd ?xs)"
    using listing [of e] by blast
  let ?two = "[(''GET'', ''/b''), (''POST'', ''/a'')]"
  have "distinct (map snd ?two)"
    by simp
  with post have "srt (\<lambda>a b. snd a < snd b) ?two = sort_key snd ?two"
    by (rule sort_Slice_post_by_key(3))
  also have "\<dots> = [(''POST'', ''/a''), (''GET'', ''/b'')]"
    by (simp add: less_eq_char_def less_char_def)
  finally have "showEcho srt
      \<lparr>Routes = [\<lparr>Method = ''GET'', Path = ''/b''\<rparr>, \<lparr>Method = ''POST'', Path = ''/a''\<rparr>],
       middlewares = ms\<rparr> tr =
      tr @ [Infof ''%s %s'' [AString ''POST'', AString ''/a''],
            Infof ''%s %s'' [AString ''GET'', AString ''/b'']]"
    by (simp add: listing)
  with general show ?thesis by blast
qed

theorem showEcho_sorted_witness:
  "(\<exists>ys. showEcho stable_sort_by
       \<lparr>Routes = [\<lparr>Method = ''GET'', Path = ''/users''\<rparr>,
                  \<lparr>Method = ''GET'', Path = ''/health''\<rparr>,
                  \<lparr>Method = ''POST'', Path = ''/login''\<rparr>],
        middlewares = []\<rparr> [] =
       map (\<lambda>(m, p). Infof ''%s %s'' [AString m, AString p]) ys \<and>
     ys = [(''GET'', ''/health''), (''POST'', ''/login''), (''GET'', ''/users'')]) \<and>
   showEcho stable_sort_by
     \<lparr>Routes = [\<lparr>Method = ''GET'', Path = ''/b''\<rparr>, \<lparr>Method = ''POST'', Path = ''/a''\<rparr>],
      middlewares = []\<rparr> [] =
     [Infof ''%s %s'' [AString ''POST'', AString ''/a''],
      Infof ''%s %s'' [AString ''GET'', AString ''/b'']]"
proof -
  let ?e = "\<lparr>Routes = [\<lparr>Method = ''GET'', Path = ''/users''\<rparr>,
                  \<lparr>Method = ''GET'', Path = ''/health''\<rparr>,
                  \<lparr>Method = ''POST'', Path = ''/login''\<rparr>],
        middlewares = []\<rparr>"
  have m: "meets_sort_Slice stable_sort_by (\<lambda>a b. snd a < (snd b :: string))"
    by (rule stable_sort_by_meets)
  have d: "distinct (map Path (Routes ?e))"
    by simp
  have s: "sort_key snd (map (\<lambda>r. (Method r, Path r)) (Routes ?e)) =
      [(''GET'', ''/health''), (''POST'', ''/login''), (''GET'', ''/users'')]"
    by (simp add: less_eq_char_def less_char_def)
  from showEcho_sorted [OF m, of ?e "[]" "[]"] d s show ?thesis
    by auto
qed

text \<open>
  \<open>GET /a\<close> is registered before \<open>POST /a\<close>, and \<open>e.Routes()\<close> returns \<open>POST /a\<close> first, as
  it may. On these two elements the sort swaps nothing, the paths being equal, and the
  listing has \<open>POST /a\<close> first; in the words of the specification it has \<open>GET /a\<close> first.
\<close>

theorem showEcho_ties_not_registration_order:
  "Routes_returns
     [\<lparr>Method = ''GET'', Path = ''/a''\<rparr>, \<lparr>Method = ''POST'', Path = ''/a''\<rparr>]
     (Routes \<lparr>Routes = [\<lparr>Method = ''POST'', Path = ''/a''\<rparr>,
                         \<lparr>Method = ''GET'', Path = ''/a''\<rparr>],
              middlewares = []\<rparr>) \<and>
   showEcho stable_sort_by
     \<lparr>Routes = [\<lparr>Method = ''POST'', Path = ''/a''\<rparr>, \<lparr>Method = ''GET'', Path = ''/a''\<rparr>],
      middlewares = []\<rparr> [] =
     [Infof ''%s %s'' [AString ''POST'', AString ''/a''],
      Infof ''%s %s'' [AString ''GET'', AString ''/a'']] \<and>
   spec_ListRoutes
     [\<lparr>Method = ''GET'', Path = ''/a''\<rparr>, \<lparr>Method = ''POST'', Path = ''/a''\<rparr>] =
     [(''GET'', ''/a''), (''POST'', ''/a'')]"
proof -
  have "Routes_returns
     [\<lparr>Method = ''GET'', Path = ''/a''\<rparr>, \<lparr>Method = ''POST'', Path = ''/a''\<rparr>]
     (Routes \<lparr>Routes = [\<lparr>Method = ''POST'', Path = ''/a''\<rparr>,
                         \<lparr>Method = ''GET'', Path = ''/a''\<rparr>],
              middlewares = []\<rparr>)"
    by (auto simp: Routes_returns_def)
  moreover have "showEcho stable_sort_by
     \<lparr>Routes = [\<lparr>Method = ''POST'', Path = ''/a''\<rparr>, \<lparr>Method = ''GET'', Path = ''/a''\<rparr>],
      middlewares = []\<rparr> [] =
     [Infof ''%s %s'' [AString ''POST'', AString ''/a''],
      Infof ''%s %s'' [AString ''GET'', AString ''/a'']]"
    by (simp add: showEcho_def stable_sort_by_def)
  moreover have "spec_ListRoutes
     [\<lparr>Method = ''GET'', Path = ''/a''\<rparr>, \<lparr>Method = ''POST'', Path = ''/a''\<rparr>] =
     [(''GET'', ''/a''), (''POST'', ''/a'')]"
    by (simp add: spec_ListRoutes_def)
  ultimately show ?thesis by blast
qed

text \<open>
  C6. \<open>New\<close> returns an error exactly when \<open>ParseLevel\<close> rejects the level string of the
  configuration, and the error it returns is the one of \<open>ParseLevel\<close>; it returns a gateway
  exactly when it returns no error. With the error comes no gateway. The gateway that comes
  with no error is complete: its logger is set and has the parsed level and the
  quote-empty-fields formatter, and its server has the three middlewares.
\<close>

theorem New_error_iff_level:
  "(snd (fst (New log_New ParseLevel ctx lc w)) \<noteq> None \<longleftrightarrow>
      (\<exists>err. ParseLevel (Level lc) = Inl err)) \<and>
   (fst (fst (New log_New ParseLevel ctx lc w)) = None \<longleftrightarrow>
      snd (fst (New log_New ParseLevel ctx lc w)) \<noteq> None) \<and>
   (\<forall>err. ParseLevel (Level lc) = Inl err \<longrightarrow>
      fst (New log_New ParseLevel ctx lc w) = (None, Some err)) \<and>
   (\<forall>lvl. ParseLevel (Level lc) = Inr lvl \<longrightarrow>
      (\<exists>agw. fst (New log_New ParseLevel ctx lc w) = (Some agw, None) \<and>
         Logger agw = Some (fst (log_New w)) \<and>
         Lvl (loggers (snd (New log_New ParseLevel ctx lc w)) (fst (log_New w))) = lvl \<and>
         Formatter (loggers (snd (New log_New ParseLevel ctx lc w)) (fst (log_New w))) =
           TextFormatter True \<and>
         length (middlewares (Echo agw)) = 3))"
proof (cases "ParseLevel (Level lc)")
  case (Inl err)
  then have "New log_New ParseLevel ctx lc w = ((None, Some err), snd (log_New w))"
    by (rule New_error)
  with Inl show ?thesis by simp
next
  case (Inr lvl)
  obtain r w1 where n: "log_New w = (r, w1)"
    by (cases "log_New w")
  show ?thesis
    using Inr n by (simp add: New_ok [where ParseLevel = ParseLevel and log_New = log_New, OF n Inr] configEcho_middlewares echo_New_def)
qed

theorem New_error_iff_level_witness:
  "fst (New new_at_1 parse_lower 7
      \<lparr>Output = ''stdout'', Level = ''bogus'', Size = 10, BackNum = 3, AgeDays = 7\<rparr> world0) =
     (None, Some (Error (''not a valid logrus Level: '' @ [CHR 0x22] @ ''bogus'' @ [CHR 0x22]))) \<and>
   snd (fst (New new_at_1 parse_lower 7
      \<lparr>Output = ''stdout'', Level = ''info'', Size = 10, BackNum = 3, AgeDays = 7\<rparr> world0)) =
     None \<and>
   fst (fst (New new_at_1 parse_lower 7
      \<lparr>Output = ''stdout'', Level = ''info'', Size = 10, BackNum = 3, AgeDays = 7\<rparr> world0)) \<noteq>
     None"
proof -
  let ?bogus = "\<lparr>Output = ''stdout'', Level = ''bogus'', Size = 10, BackNum = 3, AgeDays = 7\<rparr>"
  let ?info = "\<lparr>Output = ''stdout'', Level = ''info'', Size = 10, BackNum = 3, AgeDays = 7\<rparr>"
  have b: "parse_lower (Level ?bogus) = Inl (Error (''not a valid logrus Level: '' @ [CHR 0x22] @ ''bogus'' @ [CHR 0x22]))"
    by (simp add: parse_lower_def ToLower_def less_eq_char_def)
  have i: "parse_lower (Level ?info) = Inr InfoLevel"
    by (simp add: parse_lower_def ToLower_def less_eq_char_def)
  from New_error_iff_level [of new_at_1 parse_lower 7 ?bogus world0] b
  have "fst (New new_at_1 parse_lower 7 ?bogus world0) =
      (None, Some (Error (''not a valid logrus Level: '' @ [CHR 0x22] @ ''bogus'' @ [CHR 0x22])))"
    by blast
  moreover from New_error_iff_level [of new_at_1 parse_lower 7 ?info world0] i
  have "\<exists>agw. fst (New new_at_1 parse_lower 7 ?info world0) = (Some agw, None)"
    by blast
  then have "snd (fst (New new_at_1 parse_lower 7 ?info world0)) = None"
    "fst (fst (New new_at_1 parse_lower 7 ?info world0)) \<noteq> None"
    by auto
  ultimately show ?thesis by blast
qed

text \<open>
  C7. When the level parses, \<open>initAccessLog\<close> sets the output of the gateway's logger from
  the \<open>Output\<close> string: \<open>stdout\<close> gives the standard output, \<open>stderr\<close> the standard error,
  the empty string the standard output, and every other string a rotating writer on that
  file name with the size, the number of backups and the age of the configuration, with
  compression and local time on.
\<close>

theorem initAccessLog_output:
  assumes "(case Logger agw of None \<Rightarrow> log_New w | Some r \<Rightarrow> (r, w)) = (r, w1)"
    and "ParseLevel (Level lc) = Inr lvl"
  shows "\<exists>w'. initAccessLog log_New ParseLevel agw ctx lc w = (None, agw\<lparr>Logger := Some r\<rparr>, w') \<and>
    (Output lc = ''stdout'' \<longrightarrow> Out (loggers w' r) = Stdout) \<and>
    (Output lc = ''stderr'' \<longrightarrow> Out (loggers w' r) = Stderr) \<and>
    (Output lc = [] \<longrightarrow> Out (loggers w' r) = Stdout) \<and>
    (Output lc \<noteq> ''stdout'' \<and> Output lc \<noteq> ''stderr'' \<and> Output lc \<noteq> [] \<longrightarrow>
       Out (loggers w' r) =
         Rotating \<lparr>Ctx = ctx, Filename = Output lc, MaxSize = Size lc,
           MaxBackups = BackNum lc, MaxAge = AgeDays lc,
           Compress = True, LocalTime = True\<rparr>)"
  by (simp add: initAccessLog_ok [where ParseLevel = ParseLevel and log_New = log_New, OF assms])

theorem initAccessLog_output_witness:
  "(\<exists>w'. initAccessLog new_at_1 parse_lower \<lparr>Echo = echo_New, Logger = None\<rparr> 7
      \<lparr>Output = ''/var/log/agw.log'', Level = ''warn'', Size = 100, BackNum = 5,
       AgeDays = 30\<rparr> world0 =
      (None, \<lparr>Echo = echo_New, Logger = Some (LoggerAt 1)\<rparr>, w') \<and>
    Out (loggers w' (LoggerAt 1)) =
      Rotating \<lparr>Ctx = 7, Filename = ''/var/log/agw.log'', MaxSize = 100, MaxBackups = 5,
        MaxAge = 30, Compress = True, LocalTime = True\<rparr>) \<and>
   (\<exists>w'. initAccessLog new_at_1 parse_lower \<lparr>Echo = echo_New, Logger = None\<rparr> 7
      \<lparr>Output = [], Level = ''warn'', Size = 100, BackNum = 5, AgeDays = 30\<rparr> world0 =
      (None, \<lparr>Echo = echo_New, Logger = Some (LoggerAt 1)\<rparr>, w') \<and>
    Out (loggers w' (LoggerAt 1)) = Stdout) \<and>
   (\<exists>w'. initAccessLog new_at_1 parse_lower \<lparr>Echo = echo_New, Logger = None\<rparr> 7
      \<lparr>Output = ''stdout'', Level = ''warn'', Size = 100, BackNum = 5, AgeDays = 30\<rparr> world0 =
      (None, \<lparr>Echo = echo_New, Logger = Some (LoggerAt 1)\<rparr>, w') \<and>
    Out (loggers w' (LoggerAt 1)) = Stdout) \<and>
   (\<exists>w'. initAccessLog new_at_1 parse_lower \<lparr>Echo = echo_New, Logger = None\<rparr> 7
      \<lparr>Output = ''stderr'', Level = ''warn'', Size = 100, BackNum = 5, AgeDays = 30\<rparr> world0 =
      (None, \<lparr>Echo = echo_New, Logger = Some (LoggerAt 1)\<rparr>, w') \<and>
    Out (loggers w' (LoggerAt 1)) = Stderr)"
proof -
  let ?agw = "\<lparr>Echo = echo_New, Logger = None\<rparr>"
  let ?w1 = "snd (new_at_1 world0)"
  have n: "(case Logger ?agw of None \<Rightarrow> new_at_1 world0 | Some r \<Rightarrow> (r, world0)) =
      (LoggerAt 1, ?w1)"
    by (simp add: new_at_1_def)
  have p: "parse_lower (Level \<lparr>Output = out, Level = ''warn'', Size = 100, BackNum = 5,
      AgeDays = 30\<rparr>) = Inr WarnLevel" for out
    by (simp add: parse_lower_def ToLower_def less_eq_char_def)
  have "\<exists>w'. initAccessLog new_at_1 parse_lower ?agw 7
      \<lparr>Output = ''/var/log/agw.log'', Level = ''warn'', Size = 100, BackNum = 5,
       AgeDays = 30\<rparr> world0 =
      (None, \<lparr>Echo = echo_New, Logger = Some (LoggerAt 1)\<rparr>, w') \<and>
    Out (loggers w' (LoggerAt 1)) =
      Rotating \<lparr>Ctx = 7, Filename = ''/var/log/agw.log'', MaxSize = 100, MaxBackups = 5,
        MaxAge = 30, Compress = True, LocalTime = True\<rparr>"
    using initAccessLog_output [where ParseLevel = parse_lower and log_New = new_at_1,
        OF n p [of "''/var/log/agw.log''"], where ctx = 7]
    by simp
  moreover
  have "\<exists>w'. initAccessLog new_at_1 parse_lower ?agw 7
      \<lparr>Output = [], Level = ''warn'', Size = 100, BackNum = 5, AgeDays = 30\<rparr> world0 =
      (None, \<lparr>Echo = echo_New, Logger = Some (LoggerAt 1)\<rparr>, w') \<and>
    Out (loggers w' (LoggerAt 1)) = Stdout"
    using initAccessLog_output [where ParseLevel = parse_lower and log_New = new_at_1,
        OF n p [of "[]"], where ctx = 7]
    by simp
  moreover
  have "\<exists>w'. initAccessLog new_at_1 parse_lower ?agw 7
      \<lparr>Output = ''stdout'', Level = ''warn'', Size = 100, BackNum = 5, AgeDays = 30\<rparr> world0 =
      (None, \<lparr>Echo = echo_New, Logger = Some (LoggerAt 1)\<rparr>, w') \<and>
    Out (loggers w' (LoggerAt 1)) = Stdout"
    using initAccessLog_output [where ParseLevel = parse_lower and log_New = new_at_1,
        OF n p [of "''stdout''"], where ctx = 7]
    by simp
  moreover
  have "\<exists>w'. initAccessLog new_at_1 parse_lower ?agw 7
      \<lparr>Output = ''stderr'', Level = ''warn'', Size = 100, BackNum = 5, AgeDays = 30\<rparr> world0 =
      (None, \<lparr>Echo = echo_New, Logger = Some (LoggerAt 1)\<rparr>, w') \<and>
    Out (loggers w' (LoggerAt 1)) = Stderr"
    using initAccessLog_output [where ParseLevel = parse_lower and log_New = new_at_1,
        OF n p [of "''stderr''"], where ctx = 7]
    by simp
  ultimately show ?thesis by blast
qed

text \<open>
  C9, on the code. \<open>Run\<close> hands \<open>e.Start\<close> the address \<open>ip\<close>, colon, \<open>port\<close>, and returns
  what \<open>startEcho\<close> makes of the result. Whichever way \<open>e.Start\<close> ends, it ends with an
  error: \<open>Run\<close> logs the line \<open>Failed to bind address\<close> with the address and that error and
  returns the error, and the line \<open>Start service listen on\<close> is never logged. When the bind
  succeeds on \<open>127.0.0.1:8080\<close> and the server is shut down later, \<open>Run\<close> logs the failure
  line with the error \<open>http: Server closed\<close> and returns that error.
\<close>

theorem Run_never_logs_listen:
  "Run srt (\<lambda>e addr. echo_Start (outcome e addr)) agw ip port tr =
     (Some (outcome_error (outcome (Echo agw) (ip @ '':'' @ port))),
      showEcho srt (Echo agw) tr @
        [Errorf ''Failed to bind address: %s, err[%v]''
           [AString (ip @ '':'' @ port),
            AError (outcome_error (outcome (Echo agw) (ip @ '':'' @ port)))]]) \<and>
   Run srt (\<lambda>e addr. echo_Start (Served ErrServerClosed)) agw ''127.0.0.1'' ''8080'' tr =
     (Some (Error ''http: Server closed''),
      showEcho srt (Echo agw) tr @
        [Errorf ''Failed to bind address: %s, err[%v]''
           [AString ''127.0.0.1:8080'', AError (Error ''http: Server closed'')]])"
  by (simp add: Run_def startEcho_def echo_Start_def outcome_error_def ErrServerClosed_def
      Let_def split: start_outcome.splits)

text \<open>
  C10. Let \<open>log.New\<close> return a logger other than the standard logger and leave the standard
  logger as it was. Then \<open>New\<close> leaves the standard logger as it was, whether it succeeds or
  not: output, level and formatter of the configuration go to the gateway's own logger.
  The request logging does not go through that logger: the access logger writes to the
  output that the standard logger had, and the body-dump handler is the one above, which
  logs through the package-level \<open>log.Infof\<close> and is the same for every configuration.
\<close>

theorem New_frame:
  assumes "log_New w = (r, w1)" and "r \<noteq> StandardLogger"
    and "loggers w1 StandardLogger = loggers w StandardLogger"
  shows "loggers (snd (New log_New ParseLevel ctx lc w)) StandardLogger =
      loggers w StandardLogger \<and>
    (\<forall>lvl. ParseLevel (Level lc) = Inr lvl \<longrightarrow>
      (\<exists>agw. fst (New log_New ParseLevel ctx lc w) = (Some agw, None) \<and>
         Logger agw = Some r \<and>
         loggers (snd (New log_New ParseLevel ctx lc w)) r =
           \<lparr>Out = (if Output lc = ''stdout'' then Stdout
                   else if Output lc = ''stderr'' then Stderr
                   else if Output lc = [] then Stdout
                   else Rotating \<lparr>Ctx = ctx, Filename = Output lc, MaxSize = Size lc,
                     MaxBackups = BackNum lc, MaxAge = AgeDays lc,
                     Compress = True, LocalTime = True\<rparr>),
            Formatter = TextFormatter True, Lvl = lvl\<rparr> \<and>
         middlewares (Echo agw) =
           [BodyDump Handler,
            LoggerMiddleware (viperx_GetString w1 ''sys.accessFormat'' access_format)
              (Out (loggers w StandardLogger)),
            CORS \<lparr>AllowOrigins = [''*''], ExposeHeaders = [''*''],
                  AllowMethods = [''*''], AllowHeaders = [''*''],
                  AllowCredentials = True\<rparr>]))"
proof (cases "ParseLevel (Level lc)")
  case (Inl err)
  then have "New log_New ParseLevel ctx lc w = ((None, Some err), snd (log_New w))"
    by (rule New_error)
  with Inl assms show ?thesis by simp
next
  case (Inr lvl)
  show ?thesis
    using Inr assms
    by (simp add: New_ok [where ParseLevel = ParseLevel and log_New = log_New, OF assms(1) Inr] configEcho_middlewares echo_New_def)
qed

theorem New_frame_witness:
  "loggers (snd (New new_at_1 parse_lower 7
      \<lparr>Output = ''/var/log/agw.log'', Level = ''debug'', Size = 100, BackNum = 5,
       AgeDays = 30\<rparr> world0)) StandardLogger =
     \<lparr>Out = Stderr, Formatter = OtherFormatter 0, Lvl = InfoLevel\<rparr> \<and>
   (\<exists>agw. fst (New new_at_1 parse_lower 7
      \<lparr>Output = ''/var/log/agw.log'', Level = ''debug'', Size = 100, BackNum = 5,
       AgeDays = 30\<rparr> world0) = (Some agw, None) \<and>
      Logger agw = Some (LoggerAt 1) \<and>
      loggers (snd (New new_at_1 parse_lower 7
        \<lparr>Output = ''/var/log/agw.log'', Level = ''debug'', Size = 100, BackNum = 5,
         AgeDays = 30\<rparr> world0)) (LoggerAt 1) =
        \<lparr>Out = Rotating \<lparr>Ctx = 7, Filename = ''/var/log/agw.log'', MaxSize = 100,
           MaxBackups = 5, MaxAge = 30, Compress = True, LocalTime = True\<rparr>,
         Formatter = TextFormatter True, Lvl = DebugLevel\<rparr> \<and>
      middlewares (Echo agw) =
        [BodyDump Handler, LoggerMiddleware access_format Stderr,
         CORS \<lparr>AllowOrigins = [''*''], ExposeHeaders = [''*''],
               AllowMethods = [''*''], AllowHeaders = [''*''],
               AllowCredentials = True\<rparr>])"
proof -
  let ?lc = "\<lparr>Output = ''/var/log/agw.log'', Level = ''debug'', Size = 100, BackNum = 5,
       AgeDays = 30\<rparr>"
  let ?w1 = "snd (new_at_1 world0)"
  have n: "new_at_1 world0 = (LoggerAt 1, ?w1)"
    by (simp add: new_at_1_def)
  have d: "LoggerAt 1 \<noteq> StandardLogger"
    by simp
  have s: "loggers ?w1 StandardLogger = loggers world0 StandardLogger"
    by (simp add: new_at_1_def)
  have p: "parse_lower (Level ?lc) = Inr DebugLevel"
    by (simp add: parse_lower_def ToLower_def less_eq_char_def)
  have g: "viperx_GetString ?w1 ''sys.accessFormat'' access_format = access_format"
    by (simp add: new_at_1_def world0_def)
  have o: "loggers world0 StandardLogger =
      \<lparr>Out = Stderr, Formatter = OtherFormatter 0, Lvl = InfoLevel\<rparr>"
    by (simp add: world0_def)
  from New_frame [where ParseLevel = parse_lower and log_New = new_at_1, OF n d s, of 7 ?lc] p g o
  show ?thesis
    by simp
qed

end
